theory Spec2Isabelle
  imports Main "HOL-Library.Multiset" "HOL-Library.Sublist"
begin

section \<open>Data model\<close>

text \<open>
  The objects that \<^verbatim>\<open>common.py\<close> works on. The classes themselves
  (\<^verbatim>\<open>classes/package.py\<close>, \<^verbatim>\<open>classes/notice.py\<close>, the image,
  layer and command classes) are imported by the module; their shape is taken from the
  attributes and methods that \<^verbatim>\<open>common.py\<close> uses and from section 3 of the
  specification. Python objects are mutated in place; here every function returns the
  updated value.
\<close>

record notice =
  origin :: string
  message :: string
  level :: string

text \<open>
  An attribute of a package that was never assigned is \<open>None\<close>.
\<close>

record package =
  pkg_name :: string
  version :: "string option"
  license :: "string option"
  src_url :: "string option"
  pkg_notices :: "notice list"

record layer =
  layer_id :: string
  packages :: "package list"
  layer_notices :: "notice list"

record image =
  image_name :: string
  image_tag :: string
  layers :: "layer list"
  image_notices :: "notice list"

text \<open>
  Modelled from the spec: the command class is not in the sources. A command carries its
  text, its words, "a recognition flag", read by \<^verbatim>\<open>is_set()\<close>, and a
  classification, read by \<^verbatim>\<open>is_ignore()\<close> and \<^verbatim>\<open>is_install()\<close>.
  The flag and the classification are independent fields, as in section 3 of the
  specification.
\<close>

record command =
  shell_command :: string
  words :: "string list"
  is_set :: bool
  is_ignore :: bool
  is_install :: bool

text \<open>
  A cached package is a dictionary from attribute names to values.
\<close>

type_synonym pkg_dict = "string \<rightharpoonup> string"

text \<open>
  The only exception that the code of \<^verbatim>\<open>common.py\<close> raises by itself is the
  \<^verbatim>\<open>KeyError\<close> of a dictionary subscript; it carries the missing key.
\<close>

datatype error = KeyError string

text \<open>
  What a call does besides changing the objects it was given: the queries and writes it
  sends to the cache, the lines it sends to the logger, and the \<^verbatim>\<open>Package\<close>
  objects it constructs. A call returns the events in the order in which they happened.
\<close>

datatype event =
    Cache_get_packages string
  | Cache_add_layer layer
  | Logger_error string
  | Package_init string

subsection \<open>Methods of the imported classes\<close>

text \<open>
  Modelled from the spec: the constructor \<^verbatim>\<open>Package(name)\<close> of
  \<^verbatim>\<open>classes/package.py\<close> is not in the sources;
  "Packages are created empty and filled incrementally".
\<close>

definition Package :: "string \<Rightarrow> package" where
  "Package name =
     \<lparr>pkg_name = name, version = None, license = None, src_url = None, pkg_notices = []\<rparr>"

text \<open>
  Modelled from the spec: the constructor \<^verbatim>\<open>Notice(origin, message, level)\<close> of
  \<^verbatim>\<open>classes/notice.py\<close> is not in the sources; a notice records its origin, its
  message and its level.
\<close>

definition Notice :: "string \<Rightarrow> string \<Rightarrow> string \<Rightarrow> notice" where
  "Notice orig msg lvl = \<lparr>origin = orig, message = msg, level = lvl\<rparr>"

text \<open>
  Modelled from the spec: \<^verbatim>\<open>add_notice\<close> of the image, layer and package classes
  is not in the sources; notices are "append-only" and "always accumulate".
\<close>

definition add_image_notice :: "notice \<Rightarrow> image \<Rightarrow> image" where
  "add_image_notice n img = img\<lparr>image_notices := image_notices img @ [n]\<rparr>"

definition add_layer_notice :: "notice \<Rightarrow> layer \<Rightarrow> layer" where
  "add_layer_notice n l = l\<lparr>layer_notices := layer_notices l @ [n]\<rparr>"

definition add_pkg_notice :: "notice \<Rightarrow> package \<Rightarrow> package" where
  "add_pkg_notice n p = p\<lparr>pkg_notices := pkg_notices p @ [n]\<rparr>"

subsection \<open>The collaborators\<close>

text \<open>
  The modules that \<^verbatim>\<open>common.py\<close> imports (\<^verbatim>\<open>command_lib\<close>,
  \<^verbatim>\<open>utils.cache\<close>, \<^verbatim>\<open>utils.container\<close>, \<^verbatim>\<open>utils.constants\<close>,
  \<^verbatim>\<open>report.info\<close>, \<^verbatim>\<open>report.errors\<close>) are parameters of the model,
  so every theorem holds for whatever they compute. The type \<open>'l\<close> is the type of the
  listings of the command library.

  A lookup that returns a listing returns \<open>None\<close> when the value is one that Python's
  \<^verbatim>\<open>if listing:\<close> takes for false (no listing, or an empty one). The attribute
  invoker \<^verbatim>\<open>get_pkg_attr_list(shell, listing, package_name='')\<close> is the function
  of its arguments that section 2 of the specification describes. The message templates
  of \<^verbatim>\<open>report.errors\<close> and \<^verbatim>\<open>report.info\<close> are functions of the values
  that \<^verbatim>\<open>format\<close> is given. \<open>check_container\<close> is what the call
  \<^verbatim>\<open>check_container()\<close> answers, \<open>get_packages\<close> what the cache answers for a
  layer id (\<open>[]\<close> for \<^verbatim>\<open>None\<close> and for an empty list), \<open>fill\<close> the method
  \<^verbatim>\<open>Package.fill\<close>, and \<open>get_image_option\<close> the method of the image.

  \<open>add_package\<close> is the method \<^verbatim>\<open>add_package\<close> of the layer class, which is
  not in the sources either: given the package and the packages that the layer holds, the
  packages that the layer holds after the call. Whether it keeps a package whose name the
  layer already has is up to the parameter.
\<close>

record 'l env =
  get_base_listing :: "string \<Rightarrow> string \<Rightarrow> 'l option"
  get_image_shell :: "'l \<Rightarrow> string \<times> string"
  get_pkg_attr_list :: "string \<Rightarrow> 'l \<Rightarrow> string \<Rightarrow> string list \<times> string"
  check_library_key :: "'l \<Rightarrow> string \<Rightarrow> 'l option \<times> string"
  check_container :: bool
  get_packages :: "string \<Rightarrow> pkg_dict list"
  fill :: "package \<Rightarrow> pkg_dict \<Rightarrow> package"
  add_package :: "package \<Rightarrow> package list \<Rightarrow> package list"
  get_image_option :: "image \<Rightarrow> string"
  const_shell :: string
  loading_from_cache :: "string \<Rightarrow> string"
  no_shell_listing :: "string \<Rightarrow> string \<Rightarrow> string \<Rightarrow> string"
  no_listing_for_base_key :: "string \<Rightarrow> string"
  no_running_docker_container :: string
  no_image_tag_listing :: "string \<Rightarrow> string \<Rightarrow> string"

text \<open>
  The call \<^verbatim>\<open>layer.add_package(pkg)\<close>: the packages of the layer become what
  the method makes of them.
\<close>

definition layer_add_package :: "'l env \<Rightarrow> package \<Rightarrow> layer \<Rightarrow> layer" where
  "layer_add_package env pkg layer = layer\<lparr>packages := add_package env pkg (packages layer)\<rparr>"

section \<open>The command filters\<close>

text \<open>
  \<^verbatim>\<open>remove_ignored_commands\<close> and \<^verbatim>\<open>remove_unrecognized_commands\<close>:
  the \<^verbatim>\<open>while command_list:\<close> loop pops the first command until the list is
  empty (the caller's list is left empty), appending either the command's text and a
  newline to the string or the command to \<^verbatim>\<open>filtered_list\<close>.
\<close>

fun remove_ignored_loop :: "command list \<Rightarrow> string \<Rightarrow> command list \<Rightarrow> string \<times> command list" where
  "remove_ignored_loop [] ignore_commands filtered_list = (ignore_commands, filtered_list)"
| "remove_ignored_loop (command # command_list) ignore_commands filtered_list =
     (if is_set command \<and> is_ignore command
      then remove_ignored_loop command_list
             (ignore_commands @ shell_command command @ ''\<newline>'') filtered_list
      else remove_ignored_loop command_list ignore_commands (filtered_list @ [command]))"

definition remove_ignored_commands :: "command list \<Rightarrow> string \<times> command list" where
  "remove_ignored_commands command_list = remove_ignored_loop command_list [] []"

fun remove_unrecognized_loop :: "command list \<Rightarrow> string \<Rightarrow> command list \<Rightarrow> string \<times> command list" where
  "remove_unrecognized_loop [] unrec_commands filtered_list = (unrec_commands, filtered_list)"
| "remove_unrecognized_loop (command # command_list) unrec_commands filtered_list =
     (if \<not> is_set command
      then remove_unrecognized_loop command_list
             (unrec_commands @ shell_command command @ ''\<newline>'') filtered_list
      else remove_unrecognized_loop command_list unrec_commands (filtered_list @ [command]))"

definition remove_unrecognized_commands :: "command list \<Rightarrow> string \<times> command list" where
  "remove_unrecognized_commands command_list = remove_unrecognized_loop command_list [] []"

text \<open>
  The text that the filters emit for a list of commands: each command's text followed
  by a newline.
\<close>

definition emitted_text :: "command list \<Rightarrow> string" where
  "emitted_text cs = concat (map (\<lambda>c. shell_command c @ ''\<newline>'') cs)"

section \<open>Loading from the cache\<close>

text \<open>
  The inner loop of \<^verbatim>\<open>load_from_cache\<close>: for every dictionary of the cached
  list, \<^verbatim>\<open>Package(pkg_dict['name'])\<close>, \<^verbatim>\<open>pkg.fill(pkg_dict)\<close> and
  \<^verbatim>\<open>layer.add_package(pkg)\<close>. The subscript raises \<^verbatim>\<open>KeyError\<close> when
  the dictionary has no name.
\<close>

fun load_packages :: "'l env \<Rightarrow> layer \<Rightarrow> pkg_dict list \<Rightarrow> event list \<Rightarrow> error + layer \<times> event list" where
  "load_packages env layer [] tr = Inr (layer, tr)"
| "load_packages env layer (pkg_dict # raw_pkg_list) tr =
     (case pkg_dict ''name'' of
        None \<Rightarrow> Inl (KeyError ''name'')
      | Some name \<Rightarrow>
          load_packages env (layer_add_package env (fill env (Package name) pkg_dict) layer) raw_pkg_list
            (tr @ [Package_init name]))"

text \<open>
  The loop over \<^verbatim>\<open>image.layers\<close>. \<open>visited\<close> are the layers already visited,
  as the loop left them; the second list are the layers still to visit, so that the
  image at the moment a layer is visited is \<open>img\<lparr>layers := visited @ layer # rest\<rparr>\<close>.
\<close>

fun load_layers :: "'l env \<Rightarrow> image \<Rightarrow> layer list \<Rightarrow> layer list \<Rightarrow> bool \<Rightarrow> event list
    \<Rightarrow> error + layer list \<times> bool \<times> event list" where
  "load_layers env img visited [] is_full tr = Inr (visited, is_full, tr)"
| "load_layers env img visited (layer # rest) is_full tr =
     (if packages layer = [] then
        (let raw_pkg_list = get_packages env (layer_id layer);
             tr1 = tr @ [Cache_get_packages (layer_id layer)]
         in if raw_pkg_list = [] then load_layers env img (visited @ [layer]) rest False tr1
            else
              (let from_cache_notice =
                     \<lparr>origin = get_image_option env (img\<lparr>layers := visited @ layer # rest\<rparr>)
                                 @ layer_id layer,
                      message = loading_from_cache env (layer_id layer),
                      level = ''info''\<rparr>
               in case load_packages env (add_layer_notice from_cache_notice layer) raw_pkg_list tr1 of
                    Inl e \<Rightarrow> Inl e
                  | Inr (layer', tr2) \<Rightarrow> load_layers env img (visited @ [layer']) rest is_full tr2))
      else load_layers env img (visited @ [layer]) rest is_full tr)"

text \<open>
  \<^verbatim>\<open>load_from_cache(image)\<close> returns the image, \<^verbatim>\<open>is_full\<close> and, here,
  the events of the call; an exception is \<open>Inl\<close>.
\<close>

definition load_from_cache :: "'l env \<Rightarrow> image \<Rightarrow> error + image \<times> bool \<times> event list" where
  "load_from_cache env img =
     (case load_layers env img [] (layers img) True [] of
        Inl e \<Rightarrow> Inl e
      | Inr (ls, is_full, tr) \<Rightarrow> Inr (img\<lparr>layers := ls\<rparr>, is_full, tr))"

text \<open>The layer ids that a call asked the cache for, in order.\<close>

fun cache_queries :: "event list \<Rightarrow> string list" where
  "cache_queries [] = []"
| "cache_queries (Cache_get_packages i # tr) = i # cache_queries tr"
| "cache_queries (_ # tr) = cache_queries tr"

text \<open>The layers that a call wrote to the cache, in order.\<close>

fun cache_writes :: "event list \<Rightarrow> layer list" where
  "cache_writes [] = []"
| "cache_writes (Cache_add_layer l # tr) = l # cache_writes tr"
| "cache_writes (_ # tr) = cache_writes tr"

text \<open>The names of the packages that a call constructed, in order.\<close>

fun constructed :: "event list \<Rightarrow> string list" where
  "constructed [] = []"
| "constructed (Package_init n # tr) = n # constructed tr"
| "constructed (_ # tr) = constructed tr"

section \<open>The base packages\<close>

text \<open>
  The body of the loop \<^verbatim>\<open>for index in range(0, len(names))\<close> of
  \<^verbatim>\<open>add_base_packages\<close>. \<open>base_package\<close> is the package object of one index
  after the three guarded assignments; an attribute is assigned only when its list is
  as long as \<^verbatim>\<open>names\<close>, so no subscript is out of range.
\<close>

definition base_package :: "string list \<Rightarrow> string list \<Rightarrow> string list \<Rightarrow> string list \<Rightarrow> nat \<Rightarrow> package" where
  "base_package names versions licenses src_urls index =
     (let pkg = Package (names ! index);
          pkg = (if length versions = length names
                 then pkg\<lparr>version := Some (versions ! index)\<rparr> else pkg);
          pkg = (if length licenses = length names
                 then pkg\<lparr>license := Some (licenses ! index)\<rparr> else pkg);
          pkg = (if length src_urls = length names
                 then pkg\<lparr>src_url := Some (src_urls ! index)\<rparr> else pkg)
      in pkg)"

text \<open>
  One round of the loop: the package is constructed, and it is added to every layer of
  the image inside the branch that compares \<^verbatim>\<open>len(src_urls)\<close> with
  \<^verbatim>\<open>len(names)\<close>.
\<close>

definition base_package_step :: "'l env \<Rightarrow> string list \<Rightarrow> string list \<Rightarrow> string list
    \<Rightarrow> string list \<Rightarrow> nat \<Rightarrow> image \<times> event list \<Rightarrow> image \<times> event list" where
  "base_package_step env names versions licenses src_urls index st =
     (case st of (img, tr) \<Rightarrow>
        (let pkg = base_package names versions licenses src_urls index;
             tr' = tr @ [Package_init (names ! index)]
         in if length src_urls = length names
            then (img\<lparr>layers := map (layer_add_package env pkg) (layers img)\<rparr>, tr')
            else (img, tr')))"

text \<open>
  The part of \<^verbatim>\<open>add_base_packages\<close> that follows the four invocations: the
  notice for the invocation messages, the loop over the indices behind the guard
  \<^verbatim>\<open>if names and len(names) > 1\<close>, and \<^verbatim>\<open>cache.add_layer\<close> for
  every layer.
\<close>

definition register_base_packages :: "'l env \<Rightarrow> image \<Rightarrow> string list \<times> string \<Rightarrow> string list \<times> string
    \<Rightarrow> string list \<times> string \<Rightarrow> string list \<times> string \<Rightarrow> image \<times> event list" where
  "register_base_packages env img nr vr lr ur =
     (case (nr, vr, lr, ur) of ((names, n_msg), (versions, v_msg), (licenses, l_msg), (src_urls, u_msg)) \<Rightarrow>
        (let invoke_msg = n_msg @ v_msg @ l_msg @ u_msg;
             img1 = (if invoke_msg \<noteq> []
                     then add_image_notice (Notice ''command_lib/base.yml'' invoke_msg ''error'') img
                     else img);
             (img2, tr) = (if names \<noteq> [] \<and> length names > 1
                           then fold (base_package_step env names versions licenses src_urls)
                                  [0..<length names] (img1, [])
                           else (img1, []))
         in (img2, tr @ map Cache_add_layer (layers img2))))"

text \<open>
  \<^verbatim>\<open>add_base_packages(image, info)\<close>. \<open>info\<close> is the dictionary whose keys
  \<^verbatim>\<open>names\<close>, \<^verbatim>\<open>versions\<close>, \<^verbatim>\<open>licenses\<close> and
  \<^verbatim>\<open>src_urls\<close> the function subscripts, each one right before its invocation.
  The function returns nothing; the model returns the image as the call left it and the
  events of the call.
\<close>

definition add_base_packages :: "'l env \<Rightarrow> image \<Rightarrow> (string \<rightharpoonup> 'l) \<Rightarrow> error + image \<times> event list" where
  "add_base_packages env img info =
     (case get_base_listing env (image_name img) (image_tag img) of
        Some listing \<Rightarrow>
          (let (shell, msg) = get_image_shell env listing;
               (img1, shell1) =
                 (if shell = [] then
                    (add_image_notice
                       (Notice ''command_lib/base.yml'' (no_listing_for_base_key env ''shell'') ''hint'')
                       (add_image_notice
                          (Notice ''command_lib/base.yml''
                             (no_shell_listing env (image_name img) (image_tag img) (const_shell env))
                             ''warning'')
                          img),
                     const_shell env)
                  else (img, shell))
           in if check_container env then
                (case info ''names'' of
                   None \<Rightarrow> Inl (KeyError ''names'')
                 | Some names_listing \<Rightarrow>
                (case info ''versions'' of
                   None \<Rightarrow> Inl (KeyError ''versions'')
                 | Some versions_listing \<Rightarrow>
                (case info ''licenses'' of
                   None \<Rightarrow> Inl (KeyError ''licenses'')
                 | Some licenses_listing \<Rightarrow>
                (case info ''src_urls'' of
                   None \<Rightarrow> Inl (KeyError ''src_urls'')
                 | Some src_urls_listing \<Rightarrow>
                     Inr (register_base_packages env img1
                            (get_pkg_attr_list env shell1 names_listing [])
                            (get_pkg_attr_list env shell1 versions_listing [])
                            (get_pkg_attr_list env shell1 licenses_listing [])
                            (get_pkg_attr_list env shell1 src_urls_listing []))))))
              else Inr (img1, [Logger_error (no_running_docker_container env)]))
      | None \<Rightarrow>
          Inr (add_image_notice
                 (Notice ''command_lib/base.yml''
                    (no_image_tag_listing env (image_name img) (image_tag img)) ''error'')
                 img,
               []))"

section \<open>Package metadata\<close>

text \<open>
  \<^verbatim>\<open>fill_package_metadata(pkg_obj, pkg_listing, shell)\<close> has three blocks, one
  per attribute; each looks a key up with \<^verbatim>\<open>check_library_key\<close>, invokes the
  listing it found with the package's name, and assigns the first value or attaches a
  notice. The third block, for the source URL, looks up the key \<^verbatim>\<open>license\<close>.
\<close>

definition fill_version :: "'l env \<Rightarrow> 'l \<Rightarrow> string \<Rightarrow> package \<Rightarrow> package" where
  "fill_version env pkg_listing shell pkg_obj =
     (case check_library_key env pkg_listing ''version'' of
        (Some version_listing, listing_msg) \<Rightarrow>
          (case get_pkg_attr_list env shell version_listing (pkg_name pkg_obj) of
             (v # _, invoke_msg) \<Rightarrow> pkg_obj\<lparr>version := Some v\<rparr>
           | ([], invoke_msg) \<Rightarrow>
               add_pkg_notice (Notice ''command_lib/snippets.yml'' invoke_msg ''error'') pkg_obj)
      | (None, listing_msg) \<Rightarrow>
          add_pkg_notice (Notice ''command_lib/snippets.yml'' listing_msg ''warning'') pkg_obj)"

definition fill_license :: "'l env \<Rightarrow> 'l \<Rightarrow> string \<Rightarrow> package \<Rightarrow> package" where
  "fill_license env pkg_listing shell pkg_obj =
     (case check_library_key env pkg_listing ''license'' of
        (Some license_listing, listing_msg) \<Rightarrow>
          (case get_pkg_attr_list env shell license_listing (pkg_name pkg_obj) of
             (l # _, invoke_msg) \<Rightarrow> pkg_obj\<lparr>license := Some l\<rparr>
           | ([], invoke_msg) \<Rightarrow>
               add_pkg_notice (Notice ''command_lib/snippets.yml'' invoke_msg ''error'') pkg_obj)
      | (None, listing_msg) \<Rightarrow>
          add_pkg_notice (Notice ''command_lib/snippets.yml'' listing_msg ''warning'') pkg_obj)"

definition fill_src_url :: "'l env \<Rightarrow> 'l \<Rightarrow> string \<Rightarrow> package \<Rightarrow> package" where
  "fill_src_url env pkg_listing shell pkg_obj =
     (case check_library_key env pkg_listing ''license'' of
        (Some url_listing, listing_msg) \<Rightarrow>
          (case get_pkg_attr_list env shell url_listing (pkg_name pkg_obj) of
             (u # _, invoke_msg) \<Rightarrow> pkg_obj\<lparr>src_url := Some u\<rparr>
           | ([], invoke_msg) \<Rightarrow>
               add_pkg_notice (Notice ''command_lib/snippets.yml'' invoke_msg ''error'') pkg_obj)
      | (None, listing_msg) \<Rightarrow>
          add_pkg_notice (Notice ''command_lib/snippets.yml'' listing_msg ''warning'') pkg_obj)"

definition fill_package_metadata :: "'l env \<Rightarrow> package \<Rightarrow> 'l \<Rightarrow> string \<Rightarrow> package" where
  "fill_package_metadata env pkg_obj pkg_listing shell =
     fill_src_url env pkg_listing shell
       (fill_license env pkg_listing shell
          (fill_version env pkg_listing shell pkg_obj))"

section \<open>Package dependencies\<close>

text \<open>
  \<^verbatim>\<open>list(set(deps_list))\<close> lists every value of \<^verbatim>\<open>deps_list\<close> once, in
  an order that Python does not fix. \<open>list_of_set xs ys\<close> says that \<open>ys\<close> is one of the
  lists it can return for \<open>xs\<close>.
\<close>

definition list_of_set :: "'a list \<Rightarrow> 'a list \<Rightarrow> bool" where
  "list_of_set xs ys = (distinct ys \<and> set ys = set xs)"

text \<open>
  \<^verbatim>\<open>get_package_dependencies(package_listing, package_name, shell)\<close>, as the
  relation between the arguments and the pairs that the function can return.
\<close>

definition get_package_dependencies :: "'l env \<Rightarrow> 'l \<Rightarrow> string \<Rightarrow> string \<Rightarrow> string list \<times> string \<Rightarrow> bool" where
  "get_package_dependencies env package_listing package_name shell result =
     (case check_library_key env package_listing ''deps'' of
        (Some deps_listing, deps_msg) \<Rightarrow>
          (case get_pkg_attr_list env shell deps_listing package_name of
             ([], invoke_msg) \<Rightarrow> result = ([], invoke_msg)
           | (d # ds, invoke_msg) \<Rightarrow> list_of_set (d # ds) (fst result) \<and> snd result = [])
      | (None, deps_msg) \<Rightarrow> result = ([], deps_msg))"

section \<open>Notions used to state the properties\<close>

text \<open>
  The packages made from a cached list: \<^verbatim>\<open>Package(pkg_dict['name'])\<close>, filled
  from the dictionary, for every dictionary of the list; \<open>None\<close> when a dictionary has
  no name.
\<close>

fun cached_packages :: "'l env \<Rightarrow> pkg_dict list \<Rightarrow> package list option" where
  "cached_packages env [] = Some []"
| "cached_packages env (pkg_dict # raw_pkg_list) =
     (case pkg_dict ''name'' of
        None \<Rightarrow> None
      | Some name \<Rightarrow>
          (case cached_packages env raw_pkg_list of
             None \<Rightarrow> None
           | Some pkgs \<Rightarrow> Some (fill env (Package name) pkg_dict # pkgs)))"

text \<open>
  How a layer after \<^verbatim>\<open>load_from_cache\<close> relates to the layer before it: a layer
  that held packages, or whose id the cache does not know, is the same layer; any other
  layer keeps its id, and its packages are what \<^verbatim>\<open>add_package\<close> made of the
  packages of the cached list, given one after the other to the layer that held none.
\<close>

definition layer_loaded :: "'l env \<Rightarrow> layer \<Rightarrow> layer \<Rightarrow> bool" where
  "layer_loaded env l l' =
     (if packages l \<noteq> [] \<or> get_packages env (layer_id l) = [] then l' = l
      else case cached_packages env (get_packages env (layer_id l)) of
             None \<Rightarrow> False
           | Some pkgs \<Rightarrow> layer_id l' = layer_id l \<and> packages l' = fold (add_package env) pkgs [])"

text \<open>
  A layer is served by \<^verbatim>\<open>load_from_cache\<close> when it holds packages or the cache
  has a list for its id.
\<close>

definition served :: "'l env \<Rightarrow> layer \<Rightarrow> bool" where
  "served env l = (packages l \<noteq> [] \<or> get_packages env (layer_id l) \<noteq> [])"

text \<open>
  The cached lists that a call of \<^verbatim>\<open>load_from_cache\<close> reads are well formed
  when each of their dictionaries has a name.
\<close>

definition cache_named :: "'l env \<Rightarrow> layer list \<Rightarrow> bool" where
  "cache_named env ls =
     list_all (\<lambda>l. packages l \<noteq> [] \<or>
                    list_all (\<lambda>d. d ''name'' \<noteq> None) (get_packages env (layer_id l))) ls"

text \<open>
  The shell that \<^verbatim>\<open>add_base_packages\<close> invokes with: the listing's shell, or
  the default \<^verbatim>\<open>const.shell\<close> when the listing has none; and the two notices
  that the function attaches to the image in that case, a warning and a hint.
\<close>

definition base_shell :: "'l env \<Rightarrow> 'l \<Rightarrow> string" where
  "base_shell env listing =
     (if fst (get_image_shell env listing) = [] then const_shell env
      else fst (get_image_shell env listing))"

definition no_shell_notices :: "'l env \<Rightarrow> image \<Rightarrow> 'l \<Rightarrow> notice list" where
  "no_shell_notices env img listing =
     (if fst (get_image_shell env listing) = [] then
        [Notice ''command_lib/base.yml''
           (no_shell_listing env (image_name img) (image_tag img) (const_shell env)) ''warning'',
         Notice ''command_lib/base.yml'' (no_listing_for_base_key env ''shell'') ''hint'']
      else [])"

section \<open>Example values\<close>

text \<open>
  Concrete commands, images and collaborators at which the theorems below are evaluated.
\<close>

definition cmd_a :: command where
  "cmd_a = \<lparr>shell_command = ''apt-get update'', words = [''update''],
             is_set = True, is_ignore = True, is_install = False\<rparr>"
definition cmd_b :: command where
  "cmd_b = \<lparr>shell_command = ''frob'', words = [],
             is_set = False, is_ignore = True, is_install = False\<rparr>"

definition env0 :: "string env" where
  "env0 =
     \<lparr>get_base_listing = (\<lambda>name tag. if name = ''debian'' then Some ''base''
                                     else if name = ''alpine'' then Some ''bare'' else None),
      get_image_shell = (\<lambda>listing. if listing = ''base'' then (''/bin/bash'', [])
                                    else ([], ''no shell'')),
      get_pkg_attr_list = (\<lambda>shell listing package_name.
         if listing = ''names'' then ([''a'', ''b''], [])
         else if listing = ''versions'' then ([''1.0'', ''2.0''], [])
         else if listing = ''licenses'' then ([''MIT'', ''MIT''], [])
         else if listing = ''src_urls'' then ([''u1'', ''u2''], [])
         else if listing = ''one_url'' then ([''u1''], [])
         else if listing = ''one_name'' then ([''onlyone''], [])
         else if listing = ''deps'' then ([''x'', ''y'', ''x''], [])
         else ([], ''failed'')),
      check_library_key = (\<lambda>listing key.
         if key = ''license'' then (Some ''licenses'', [])
         else if key = ''deps'' then (Some ''deps'', [])
         else (None, ''no key'')),
      check_container = True,
      get_packages = (\<lambda>i. if i = ''x'' then [[''name'' \<mapsto> ''bash'', ''version'' \<mapsto> ''5'']] else []),
      fill = (\<lambda>p d. p\<lparr>version := d ''version'', license := d ''license'', src_url := d ''src_url''\<rparr>),
      add_package = (\<lambda>p ps. if pkg_name p \<in> set (map pkg_name ps) then ps else ps @ [p]),
      get_image_option = (\<lambda>img. image_name img @ '':'' @ image_tag img),
      const_shell = ''/bin/sh'',
      loading_from_cache = (\<lambda>i. ''loading '' @ i),
      no_shell_listing = (\<lambda>name tag shell. ''no shell for '' @ name),
      no_listing_for_base_key = (\<lambda>key. ''add '' @ key),
      no_running_docker_container = ''no container'',
      no_image_tag_listing = (\<lambda>name tag. ''no listing for '' @ name)\<rparr>"

definition layer_w :: layer where
  "layer_w = \<lparr>layer_id = ''w'', packages = [Package ''curl''], layer_notices = []\<rparr>"

definition layer_x :: layer where
  "layer_x = \<lparr>layer_id = ''x'', packages = [], layer_notices = []\<rparr>"

definition img_wx :: image where
  "img_wx = \<lparr>image_name = ''debian'', image_tag = ''9'', layers = [layer_w, layer_x], image_notices = []\<rparr>"

definition info0 :: "string \<rightharpoonup> string" where
  "info0 = [''names'' \<mapsto> ''names'', ''versions'' \<mapsto> ''versions'',
            ''licenses'' \<mapsto> ''licenses'', ''src_urls'' \<mapsto> ''src_urls'']"

definition info_one_url :: "string \<rightharpoonup> string" where
  "info_one_url = [''names'' \<mapsto> ''names'', ''versions'' \<mapsto> ''versions'',
                   ''licenses'' \<mapsto> ''licenses'', ''src_urls'' \<mapsto> ''one_url'']"

definition info_one_name :: "string \<rightharpoonup> string" where
  "info_one_name = [''names'' \<mapsto> ''one_name'', ''versions'' \<mapsto> ''versions'',
                    ''licenses'' \<mapsto> ''licenses'', ''src_urls'' \<mapsto> ''one_url'']"

definition pkg_a :: package where
  "pkg_a = \<lparr>pkg_name = ''a'', version = Some ''1.0'', license = Some ''MIT'',
             src_url = Some ''u1'', pkg_notices = []\<rparr>"

definition pkg_b :: package where
  "pkg_b = \<lparr>pkg_name = ''b'', version = Some ''2.0'', license = Some ''MIT'',
             src_url = Some ''u2'', pkg_notices = []\<rparr>"

definition env_stopped :: "string env" where
  "env_stopped = env0\<lparr>check_container := False\<rparr>"

definition img_alpine :: image where
  "img_alpine = \<lparr>image_name = ''alpine'', image_tag = ''3'', layers = [layer_x], image_notices = []\<rparr>"

lemmas example_defs = env0_def layer_w_def layer_x_def img_wx_def
  Package_def layer_add_package_def add_layer_notice_def

lemmas base_example_defs = info0_def info_one_url_def info_one_name_def pkg_a_def pkg_b_def
  env_stopped_def img_alpine_def base_shell_def no_shell_notices_def Notice_def
  register_base_packages_def base_package_step_def base_package_def add_image_notice_def

section \<open>Properties of the command filters\<close>

lemma remove_ignored_loop_eq:
  "remove_ignored_loop cl ign filt =
     (ign @ emitted_text (filter (\<lambda>c. is_set c \<and> is_ignore c) cl),
      filt @ filter (\<lambda>c. \<not> (is_set c \<and> is_ignore c)) cl)"
  by (induction cl arbitrary: ign filt) (simp_all add: emitted_text_def)

lemma remove_unrecognized_loop_eq:
  "remove_unrecognized_loop cl unrec filt =
     (unrec @ emitted_text (filter (\<lambda>c. \<not> is_set c) cl),
      filt @ filter (\<lambda>c. is_set c) cl)"
  by (induction cl arbitrary: unrec filt) (simp_all add: emitted_text_def)

lemma remove_ignored_commands_eq:
  "remove_ignored_commands cl =
     (emitted_text (filter (\<lambda>c. is_set c \<and> is_ignore c) cl),
      filter (\<lambda>c. \<not> (is_set c \<and> is_ignore c)) cl)"
  by (simp add: remove_ignored_commands_def remove_ignored_loop_eq)

lemma remove_unrecognized_commands_eq:
  "remove_unrecognized_commands cl =
     (emitted_text (filter (\<lambda>c. \<not> is_set c) cl), filter (\<lambda>c. is_set c) cl)"
  by (simp add: remove_unrecognized_commands_def remove_unrecognized_loop_eq)

lemma mset_three_way:
  "mset (filter (\<lambda>c. is_set c \<and> is_ignore c) cl) + mset (filter (\<lambda>c. \<not> is_set c) cl)
     + mset (filter (\<lambda>c. is_set c \<and> \<not> is_ignore c) cl) = mset cl"
  by (induction cl) auto

lemma unrec_after_ignored:
  "filter (\<lambda>c. \<not> is_set c) (filter (\<lambda>c. \<not> (is_set c \<and> is_ignore c)) cl)
     = filter (\<lambda>c. \<not> is_set c) cl"
  by (induction cl) auto

lemma kept_after_ignored:
  "filter is_set (filter (\<lambda>c. \<not> (is_set c \<and> is_ignore c)) cl)
     = filter (\<lambda>c. is_set c \<and> \<not> is_ignore c) cl"
  by (induction cl) auto

lemma emitted_text_member:
  assumes "c \<in> set cs"
  shows "\<exists>before after. emitted_text cs = before @ (shell_command c @ ''\<newline>'') @ after"
proof -
  from assms obtain xs ys where "cs = xs @ c # ys"
    by (auto simp: in_set_conv_decomp)
  then have "emitted_text cs = emitted_text xs @ (shell_command c @ ''\<newline>'') @ emitted_text ys"
    by (simp add: emitted_text_def)
  then show ?thesis by blast
qed

text \<open>
  Claim C5. Running \<^verbatim>\<open>remove_ignored_commands\<close> and then
  \<^verbatim>\<open>remove_unrecognized_commands\<close> on its filtered list splits the input in
  three: the ignored text is the text of the commands that are recognized and ignored,
  the unrecognized text is the text of the commands that are not recognized, and the
  final list holds the others. As multisets the three add up to the input, and the final
  list is a subsequence of the input, so it keeps the input's order.
\<close>

theorem command_filters_partition:
  "(case remove_ignored_commands command_list of (ignore_commands, filtered1) \<Rightarrow>
    case remove_unrecognized_commands filtered1 of (unrec_commands, filtered2) \<Rightarrow>
      ignore_commands = emitted_text (filter (\<lambda>c. is_set c \<and> is_ignore c) command_list) \<and>
      unrec_commands = emitted_text (filter (\<lambda>c. \<not> is_set c) command_list) \<and>
      filtered2 = filter (\<lambda>c. is_set c \<and> \<not> is_ignore c) command_list \<and>
      mset (filter (\<lambda>c. is_set c \<and> is_ignore c) command_list)
        + mset (filter (\<lambda>c. \<not> is_set c) command_list) + mset filtered2 = mset command_list \<and>
      subseq filtered2 command_list)"
  unfolding remove_ignored_commands_eq remove_unrecognized_commands_eq prod.case
    unrec_after_ignored kept_after_ignored
  by (intro conjI refl mset_three_way subseq_filter_left)

text \<open>
  Claim C10. \<^verbatim>\<open>remove_ignored_commands\<close> removes exactly the commands that
  are both recognized and classified as ignore. A command of the input that is classified
  as ignore but is not recognized is still in its filtered list; a following
  \<^verbatim>\<open>remove_unrecognized_commands\<close> removes it from the list and emits its text,
  followed by a newline, in the unrecognized text.
\<close>

theorem ignore_needs_recognition:
  "snd (remove_ignored_commands command_list)
     = filter (\<lambda>c. \<not> (is_set c \<and> is_ignore c)) command_list \<and>
   (\<forall>c \<in> set command_list. is_ignore c \<and> \<not> is_set c \<longrightarrow>
      c \<in> set (snd (remove_ignored_commands command_list)) \<and>
      c \<notin> set (snd (remove_unrecognized_commands (snd (remove_ignored_commands command_list)))) \<and>
      (\<exists>before after.
         fst (remove_unrecognized_commands (snd (remove_ignored_commands command_list)))
           = before @ (shell_command c @ ''\<newline>'') @ after))"
proof (intro conjI ballI impI)
  show "snd (remove_ignored_commands command_list)
     = filter (\<lambda>c. \<not> (is_set c \<and> is_ignore c)) command_list"
    by (simp add: remove_ignored_commands_eq)
next
  fix c assume c: "c \<in> set command_list" "is_ignore c \<and> \<not> is_set c"
  then show "c \<in> set (snd (remove_ignored_commands command_list))"
    by (simp add: remove_ignored_commands_eq)
  show "c \<notin> set (snd (remove_unrecognized_commands (snd (remove_ignored_commands command_list))))"
    using c by (simp add: remove_ignored_commands_eq remove_unrecognized_commands_eq)
  have "c \<in> set (filter (\<lambda>c. \<not> is_set c) command_list)"
    using c by simp
  then show "\<exists>before after.
         fst (remove_unrecognized_commands (snd (remove_ignored_commands command_list)))
           = before @ (shell_command c @ ''\<newline>'') @ after"
    unfolding remove_ignored_commands_eq remove_unrecognized_commands_eq snd_conv fst_conv
      unrec_after_ignored
    by (rule emitted_text_member)
qed

theorem ignore_needs_recognition_witness:
  "cmd_b \<in> set [cmd_a, cmd_b] \<and> is_ignore cmd_b \<and> \<not> is_set cmd_b \<and>
   snd (remove_ignored_commands [cmd_a, cmd_b]) = [cmd_b] \<and>
   snd (remove_unrecognized_commands (snd (remove_ignored_commands [cmd_a, cmd_b]))) = [] \<and>
   fst (remove_unrecognized_commands (snd (remove_ignored_commands [cmd_a, cmd_b]))) = ''frob\<newline>''"
  using ignore_needs_recognition [of "[cmd_a, cmd_b]"]
  by (simp add: remove_ignored_commands_def remove_unrecognized_commands_def cmd_a_def cmd_b_def)

section \<open>Properties of loading from the cache\<close>

lemma cache_queries_append: "cache_queries (a @ b) = cache_queries a @ cache_queries b"
  by (induction a rule: cache_queries.induct) simp_all

lemma load_packages_Inr:
  "load_packages env l raw tr = Inr (l', tr') \<Longrightarrow>
     layer_id l' = layer_id l \<and> layer_notices l' = layer_notices l \<and>
     (\<exists>ps. cached_packages env raw = Some ps \<and> packages l' = fold (add_package env) ps (packages l)) \<and>
     cache_queries tr' = cache_queries tr"
proof (induction raw arbitrary: l tr)
  case Nil
  then show ?case by simp
next
  case (Cons d raw)
  from Cons.prems obtain n where n: "d ''name'' = Some n"
    and rec: "load_packages env (layer_add_package env (fill env (Package n) d) l) raw
                (tr @ [Package_init n]) = Inr (l', tr')"
    by (auto split: option.splits)
  from Cons.IH [OF rec] n show ?case
    by (auto simp: layer_add_package_def cache_queries_append)
qed

lemma cached_packages_length: "cached_packages env raw = Some ps \<Longrightarrow> length ps = length raw"
  by (induction raw arbitrary: ps) (auto split: option.splits)

lemma fold_add_package_holds:
  assumes "\<forall>p ps. add_package env p ps \<noteq> []" and "pkgs \<noteq> []"
  shows "fold (add_package env) pkgs ps \<noteq> []"
  using assms by (cases pkgs rule: rev_cases) simp_all

lemma layer_loaded_served:
  assumes "\<forall>p ps. add_package env p ps \<noteq> []" and "layer_loaded env l l'"
  shows "(packages l' \<noteq> []) = served env l"
proof (cases "packages l \<noteq> [] \<or> get_packages env (layer_id l) = []")
  case True
  with assms(2) show ?thesis by (auto simp: layer_loaded_def served_def)
next
  case False
  with assms(2) obtain pkgs where pkgs: "cached_packages env (get_packages env (layer_id l)) = Some pkgs"
    and l': "packages l' = fold (add_package env) pkgs []"
    by (auto simp: layer_loaded_def split: option.splits)
  from cached_packages_length [OF pkgs] False have "pkgs \<noteq> []" by auto
  from fold_add_package_holds [OF assms(1) this] l' False show ?thesis
    by (simp add: served_def)
qed

lemma layers_loaded_served:
  assumes "\<forall>p ps. add_package env p ps \<noteq> []" and "list_all2 (layer_loaded env) ls ls'"
  shows "list_all (\<lambda>l. packages l \<noteq> []) ls' = list_all (served env) ls"
  using assms(2) by (induction rule: list_all2_induct) (simp_all add: layer_loaded_served [OF assms(1)])

lemma load_packages_total:
  "list_all (\<lambda>d. d ''name'' \<noteq> None) raw \<Longrightarrow> \<exists>r. load_packages env l raw tr = Inr r"
  by (induction raw arbitrary: l tr) auto

lemma load_layers_step:
  assumes rec: "(\<exists>new. ls = (visited @ [x]) @ new \<and> list_all2 (layer_loaded env) rest new) \<and>
     is_full' = (b \<and> list_all (served env) rest) \<and>
     cache_queries tr' = q @ map layer_id (filter (\<lambda>l. packages l = []) rest)"
    and head: "layer_loaded env layer x"
    and full: "b = (is_full \<and> served env layer)"
    and qs: "q = cache_queries tr @ map layer_id (filter (\<lambda>l. packages l = []) [layer])"
  shows "(\<exists>new. ls = visited @ new \<and> list_all2 (layer_loaded env) (layer # rest) new) \<and>
     is_full' = (is_full \<and> list_all (served env) (layer # rest)) \<and>
     cache_queries tr' = cache_queries tr @ map layer_id (filter (\<lambda>l. packages l = []) (layer # rest))"
proof -
  from rec obtain new where new: "ls = (visited @ [x]) @ new" "list_all2 (layer_loaded env) rest new"
    by blast
  have 1: "ls = visited @ (x # new)" using new by simp
  have 2: "list_all2 (layer_loaded env) (layer # rest) (x # new)" using new head by simp
  have 4: "is_full' = (is_full \<and> list_all (served env) (layer # rest))"
    using rec full by auto
  have 5: "cache_queries tr' = cache_queries tr @ map layer_id (filter (\<lambda>l. packages l = []) (layer # rest))"
    using rec qs by simp
  from 1 2 4 5 show ?thesis by blast
qed

lemma load_layers_Inr:
  "load_layers env img visited todo is_full tr = Inr (ls, is_full', tr') \<Longrightarrow>
     (\<exists>new. ls = visited @ new \<and> list_all2 (layer_loaded env) todo new) \<and>
     is_full' = (is_full \<and> list_all (served env) todo) \<and>
     cache_queries tr' = cache_queries tr @ map layer_id (filter (\<lambda>l. packages l = []) todo)"
proof (induction todo arbitrary: visited is_full tr)
  case Nil
  then show ?case by simp
next
  case (Cons layer rest)
  show ?case
  proof (cases "packages layer = []")
    case False
    with Cons.prems have rec: "load_layers env img (visited @ [layer]) rest is_full tr = Inr (ls, is_full', tr')"
      by simp
    show ?thesis
      by (rule load_layers_step [OF Cons.IH [OF rec]])
        (use False in \<open>simp_all add: layer_loaded_def served_def\<close>)
  next
    case True
    note empty = this
    show ?thesis
    proof (cases "get_packages env (layer_id layer) = []")
      case True
      with empty Cons.prems have rec:
        "load_layers env img (visited @ [layer]) rest False (tr @ [Cache_get_packages (layer_id layer)])
           = Inr (ls, is_full', tr')"
        by simp
      show ?thesis
        by (rule load_layers_step [OF Cons.IH [OF rec]])
          (use True empty in \<open>simp_all add: layer_loaded_def served_def cache_queries_append\<close>)
    next
      case False
      with empty Cons.prems obtain l2 tr2 n where
        lp: "load_packages env (add_layer_notice n layer) (get_packages env (layer_id layer))
               (tr @ [Cache_get_packages (layer_id layer)]) = Inr (l2, tr2)"
        and rec: "load_layers env img (visited @ [l2]) rest is_full tr2 = Inr (ls, is_full', tr')"
        by (auto simp: Let_def split: sum.splits)
      from load_packages_Inr [OF lp] obtain ps where
        l2: "layer_id l2 = layer_id layer"
          "cached_packages env (get_packages env (layer_id layer)) = Some ps"
          "packages l2 = fold (add_package env) ps []"
          "cache_queries tr2 = cache_queries tr @ [layer_id layer]"
        using empty by (auto simp: add_layer_notice_def cache_queries_append)
      show ?thesis
        by (rule load_layers_step [OF Cons.IH [OF rec]])
          (use l2 False empty in \<open>simp_all add: layer_loaded_def served_def\<close>)
    qed
  qed
qed

lemma load_layers_total:
  "cache_named env todo \<Longrightarrow> \<exists>r. load_layers env img visited todo is_full tr = Inr r"
proof (induction todo arbitrary: visited is_full tr)
  case Nil
  then show ?case by simp
next
  case (Cons layer rest)
  from Cons.prems have rest: "cache_named env rest"
    and head: "packages layer \<noteq> [] \<or> list_all (\<lambda>d. d ''name'' \<noteq> None) (get_packages env (layer_id layer))"
    by (simp_all add: cache_named_def)
  show ?case
  proof (cases "packages layer = [] \<and> get_packages env (layer_id layer) \<noteq> []")
    case False
    then show ?thesis using Cons.IH [OF rest] by (auto simp: Let_def)
  next
    case True
    with head have "list_all (\<lambda>d. d ''name'' \<noteq> None) (get_packages env (layer_id layer))" by simp
    from load_packages_total [OF this] obtain l2 tr2 where
      "load_packages env
         (add_layer_notice
            \<lparr>origin = get_image_option env (img\<lparr>layers := visited @ layer # rest\<rparr>) @ layer_id layer,
             message = loading_from_cache env (layer_id layer), level = ''info''\<rparr> layer)
         (get_packages env (layer_id layer)) (tr @ [Cache_get_packages (layer_id layer)]) = Inr (l2, tr2)"
      by fastforce
    with True show ?thesis using Cons.IH [OF rest, of "visited @ [l2]" is_full tr2]
      by (simp add: Let_def)
  qed
qed

text \<open>
  Claim C3. \<^verbatim>\<open>load_from_cache\<close> returns whenever every cached dictionary it reads
  has a name. When it returns, \<^verbatim>\<open>is_full\<close> is true exactly if every layer of the
  image held packages or had a list in the cache, and every returned layer is the layer it
  was before (when it held packages, or the cache had nothing for its id) or holds what
  \<^verbatim>\<open>add_package\<close> made of the packages of the cached list of its id. So, for a
  layer class whose \<^verbatim>\<open>add_package\<close> never leaves a layer without packages,
  \<^verbatim>\<open>is_full\<close> is true exactly if every layer of the returned image holds a
  package.
\<close>

theorem load_from_cache_is_full:
  "(cache_named env (layers img) \<longrightarrow> (\<exists>r. load_from_cache env img = Inr r)) \<and>
   (\<forall>img' is_full tr. load_from_cache env img = Inr (img', is_full, tr) \<longrightarrow>
      is_full = list_all (served env) (layers img) \<and>
      list_all2 (layer_loaded env) (layers img) (layers img') \<and>
      ((\<forall>p ps. add_package env p ps \<noteq> []) \<longrightarrow>
         is_full = list_all (\<lambda>l. packages l \<noteq> []) (layers img')))"
proof (intro conjI impI allI)
  assume "cache_named env (layers img)"
  from load_layers_total [OF this, of img "[]" True "[]"]
  show "\<exists>r. load_from_cache env img = Inr r"
    by (auto simp: load_from_cache_def)
next
  fix img' is_full tr
  assume "load_from_cache env img = Inr (img', is_full, tr)"
  then obtain ls where ll: "load_layers env img [] (layers img) True [] = Inr (ls, is_full, tr)"
    and img': "img' = img\<lparr>layers := ls\<rparr>"
    by (auto simp: load_from_cache_def split: sum.splits)
  from load_layers_Inr [OF ll] img'
  show full: "is_full = list_all (served env) (layers img)"
    and rel: "list_all2 (layer_loaded env) (layers img) (layers img')"
    by simp_all
  assume "\<forall>p ps. add_package env p ps \<noteq> []"
  from layers_loaded_served [OF this rel] full
  show "is_full = list_all (\<lambda>l. packages l \<noteq> []) (layers img')"
    by simp
qed

theorem load_from_cache_is_full_witness:
  "cache_named env0 (layers img_wx) \<and>
   (\<forall>p ps. add_package env0 p ps \<noteq> []) \<and>
   load_from_cache env0 img_wx =
     Inr (img_wx\<lparr>layers :=
            [layer_w,
             \<lparr>layer_id = ''x'',
              packages = [\<lparr>pkg_name = ''bash'', version = Some ''5'', license = None,
                           src_url = None, pkg_notices = []\<rparr>],
              layer_notices = [\<lparr>origin = ''debian:9x'', message = ''loading x'', level = ''info''\<rparr>]\<rparr>]\<rparr>,
          True, [Cache_get_packages ''x'', Package_init ''bash''])"
  using load_from_cache_is_full [of env0 img_wx]
  by (auto simp: cache_named_def load_from_cache_def example_defs)

text \<open>
  Claim C7. When \<^verbatim>\<open>load_from_cache\<close> returns, a layer that held a package is
  returned as it was: no package was added to it and no notice attached. The cache was
  asked once for every layer that held no package, with the id of that layer, in the
  order of the layers, and for nothing else: no query is made for a layer that holds a
  package. The id of such a layer is therefore not among the ids asked for when no layer
  without packages carries the same id, as in every image whose layers have distinct
  ids.
\<close>

theorem load_from_cache_frame:
  assumes "load_from_cache env img = Inr (img', is_full, tr)"
  shows "cache_queries tr = map layer_id (filter (\<lambda>l. packages l = []) (layers img)) \<and>
         length (layers img') = length (layers img) \<and>
         (\<forall>i < length (layers img).
            packages (layers img ! i) \<noteq> [] \<longrightarrow>
              layers img' ! i = layers img ! i \<and>
              ((\<forall>l \<in> set (layers img). packages l = [] \<longrightarrow> layer_id l \<noteq> layer_id (layers img ! i))
                 \<longrightarrow> layer_id (layers img ! i) \<notin> set (cache_queries tr)) \<and>
              (distinct (map layer_id (layers img))
                 \<longrightarrow> layer_id (layers img ! i) \<notin> set (cache_queries tr)))"
proof -
  from assms obtain ls where ll: "load_layers env img [] (layers img) True [] = Inr (ls, is_full, tr)"
    and img': "img' = img\<lparr>layers := ls\<rparr>"
    by (auto simp: load_from_cache_def split: sum.splits)
  from load_layers_Inr [OF ll] img'
  have rel: "list_all2 (layer_loaded env) (layers img) (layers img')"
    and qs: "cache_queries tr = map layer_id (filter (\<lambda>l. packages l = []) (layers img))"
    by simp_all
  have len: "length (layers img') = length (layers img)"
    using rel by (simp add: list_all2_lengthD)
  have same: "layers img' ! i = layers img ! i"
    if "i < length (layers img)" "packages (layers img ! i) \<noteq> []" for i
    using list_all2_nthD [OF rel that(1)] that(2) by (simp add: layer_loaded_def)
  have other: "layer_id l \<noteq> layer_id (layers img ! i)"
    if "i < length (layers img)" "packages (layers img ! i) \<noteq> []"
      "distinct (map layer_id (layers img))" "l \<in> set (layers img)" "packages l = []" for i l
  proof -
    from that(4) obtain j where j: "j < length (layers img)" "layers img ! j = l"
      by (auto simp: in_set_conv_nth)
    with that(2,5) have "j \<noteq> i" by auto
    with that(1,3) j(1) have "map layer_id (layers img) ! j \<noteq> map layer_id (layers img) ! i"
      by (simp add: nth_eq_iff_index_eq del: nth_map)
    with that(1) j show ?thesis by simp
  qed
  have unasked: "layer_id (layers img ! i) \<notin> set (cache_queries tr)"
    if "\<forall>l \<in> set (layers img). packages l = [] \<longrightarrow> layer_id l \<noteq> layer_id (layers img ! i)" for i
    using that by (auto simp: qs)
  have unasked_distinct: "layer_id (layers img ! i) \<notin> set (cache_queries tr)"
    if "i < length (layers img)" "packages (layers img ! i) \<noteq> []"
      "distinct (map layer_id (layers img))" for i
    using other [OF that] by (intro unasked) blast
  from qs len same unasked unasked_distinct show ?thesis by blast
qed

theorem load_from_cache_frame_witness:
  "load_from_cache env0 img_wx =
     Inr (img_wx\<lparr>layers :=
            [layer_w,
             \<lparr>layer_id = ''x'',
              packages = [\<lparr>pkg_name = ''bash'', version = Some ''5'', license = None,
                           src_url = None, pkg_notices = []\<rparr>],
              layer_notices = [\<lparr>origin = ''debian:9x'', message = ''loading x'', level = ''info''\<rparr>]\<rparr>]\<rparr>,
          True, [Cache_get_packages ''x'', Package_init ''bash'']) \<and>
   packages (layers img_wx ! 0) \<noteq> [] \<and>
   distinct (map layer_id (layers img_wx)) \<and>
   cache_queries [Cache_get_packages ''x'', Package_init ''bash''] = [''x''] \<and>
   layer_id (layers img_wx ! 0) \<notin> set (cache_queries [Cache_get_packages ''x'', Package_init ''bash''])"
  using load_from_cache_frame [of env0 img_wx _ True "[Cache_get_packages ''x'', Package_init ''bash'']"]
  by (simp add: load_from_cache_def example_defs)

section \<open>Properties of the base packages\<close>

lemma base_package_step_eq:
  "base_package_step env names versions licenses src_urls i (img, tr) =
     (if length src_urls = length names
      then img\<lparr>layers := map (layer_add_package env (base_package names versions licenses src_urls i))
                               (layers img)\<rparr>
      else img,
      tr @ [Package_init (names ! i)])"
  by (simp add: base_package_step_def Let_def)

lemma fold_base_package_step:
  "fold (base_package_step env names versions licenses src_urls) idxs (img, tr) =
     (if length src_urls = length names
      then img\<lparr>layers := map (\<lambda>l. l\<lparr>packages := fold (add_package env)
                 (map (base_package names versions licenses src_urls) idxs) (packages l)\<rparr>) (layers img)\<rparr>
      else img,
      tr @ map (\<lambda>i. Package_init (names ! i)) idxs)"
proof (induction idxs arbitrary: img tr)
  case Nil
  show ?case by simp
next
  case (Cons i idxs)
  show ?case
    by (simp add: base_package_step_eq Cons.IH layer_add_package_def comp_def)
qed

lemma init_names: "map (\<lambda>i. Package_init (names ! i)) [0..<length names] = map Package_init names"
  by (rule nth_equalityI) simp_all


lemma register_base_packages_eq:
  "register_base_packages env img (names, n_msg) (versions, v_msg) (licenses, l_msg) (src_urls, u_msg) =
     (let img1 = (if n_msg @ v_msg @ l_msg @ u_msg \<noteq> []
                  then add_image_notice
                         (Notice ''command_lib/base.yml'' (n_msg @ v_msg @ l_msg @ u_msg) ''error'') img
                  else img);
          img2 = (if 1 < length names \<and> length src_urls = length names
                  then img1\<lparr>layers := map (\<lambda>l. l\<lparr>packages := fold (add_package env)
                         (map (base_package names versions licenses src_urls) [0..<length names])
                         (packages l)\<rparr>) (layers img1)\<rparr>
                  else img1)
      in (img2, map Package_init (if 1 < length names then names else [])
                @ map Cache_add_layer (layers img2)))"
proof (cases "1 < length names")
  case True
  then have "names \<noteq> []" by auto
  with True show ?thesis
    unfolding register_base_packages_def Let_def prod.case fold_base_package_step init_names
    by simp
next
  case False
  then show ?thesis
    unfolding register_base_packages_def Let_def prod.case
    by simp
qed

lemma add_base_packages_running:
  assumes "get_base_listing env (image_name img) (image_tag img) = Some listing"
    and "check_container env"
    and "info ''names'' = Some nl" "info ''versions'' = Some vl"
    and "info ''licenses'' = Some ll" "info ''src_urls'' = Some ul"
  shows "add_base_packages env img info =
     Inr (register_base_packages env
            (img\<lparr>image_notices := image_notices img @ no_shell_notices env img listing\<rparr>)
            (get_pkg_attr_list env (base_shell env listing) nl [])
            (get_pkg_attr_list env (base_shell env listing) vl [])
            (get_pkg_attr_list env (base_shell env listing) ll [])
            (get_pkg_attr_list env (base_shell env listing) ul []))"
  using assms
  by (cases "get_image_shell env listing")
     (simp add: add_base_packages_def base_shell_def no_shell_notices_def add_image_notice_def)

lemma add_base_packages_stopped:
  assumes "get_base_listing env (image_name img) (image_tag img) = Some listing"
    and "\<not> check_container env"
  shows "add_base_packages env img info =
     Inr (img\<lparr>image_notices := image_notices img @ no_shell_notices env img listing\<rparr>,
          [Logger_error (no_running_docker_container env)])"
  using assms
  by (cases "get_image_shell env listing")
     (simp add: add_base_packages_def base_shell_def no_shell_notices_def add_image_notice_def)

lemma constructed_writes: "constructed (map Cache_add_layer ls) = []"
  by (induction ls) simp_all

lemma constructed_init: "constructed (map Package_init ns @ map Cache_add_layer ls) = ns"
  by (induction ns) (simp_all add: constructed_writes)

lemma cache_writes_layers: "cache_writes (map Cache_add_layer ls) = ls"
  by (induction ls) simp_all

lemma cache_writes_init: "cache_writes (map Package_init ns @ map Cache_add_layer ls) = ls"
  by (induction ns) (simp_all add: cache_writes_layers)

lemma base_package_aligned:
  assumes "length versions = length names" "length licenses = length names"
    "length src_urls = length names"
  shows "base_package names versions licenses src_urls i =
     \<lparr>pkg_name = names ! i, version = Some (versions ! i), license = Some (licenses ! i),
      src_url = Some (src_urls ! i), pkg_notices = []\<rparr>"
  using assms by (simp add: base_package_def Package_def)

text \<open>
  Claim C1. Let the base listing exist, the container check succeed and \<open>info\<close> hold
  its four keys, and let \<open>names\<close>, \<open>versions\<close>, \<open>licenses\<close> and \<open>src_urls\<close> be the
  lists that the four invocations return. Then \<^verbatim>\<open>add_base_packages\<close> returns, and
  \<^item> when \<open>src_urls\<close> and \<open>names\<close> differ in length, the layers of the image are the
    layers it had: no package was added to any of them;
  \<^item> when the four lists have the same length, greater than one, every layer of the
    image has been given, by \<^verbatim>\<open>add_package\<close> and in the order of the indices, the
    package of every index, with the name, version, license and source URL of that index.
\<close>

theorem base_packages_registered:
  assumes "get_base_listing env (image_name img) (image_tag img) = Some listing"
    and "check_container env"
    and "info ''names'' = Some nl" "info ''versions'' = Some vl"
    and "info ''licenses'' = Some ll" "info ''src_urls'' = Some ul"
    and "get_pkg_attr_list env (base_shell env listing) nl [] = (names, n_msg)"
    and "get_pkg_attr_list env (base_shell env listing) vl [] = (versions, v_msg)"
    and "get_pkg_attr_list env (base_shell env listing) ll [] = (licenses, l_msg)"
    and "get_pkg_attr_list env (base_shell env listing) ul [] = (src_urls, u_msg)"
  shows "\<exists>img' tr. add_base_packages env img info = Inr (img', tr) \<and>
     (length src_urls \<noteq> length names \<longrightarrow> layers img' = layers img) \<and>
     (1 < length names \<and> length versions = length names \<and> length licenses = length names \<and>
      length src_urls = length names \<longrightarrow>
        layers img' =
          map (\<lambda>l. l\<lparr>packages :=
                 fold (add_package env)
                   (map (\<lambda>i. \<lparr>pkg_name = names ! i, version = Some (versions ! i),
                              license = Some (licenses ! i), src_url = Some (src_urls ! i),
                              pkg_notices = []\<rparr>) [0..<length names])
                   (packages l)\<rparr>)
              (layers img))"
proof -
  have aligned: "map (base_package names versions licenses src_urls) idxs =
      map (\<lambda>i. \<lparr>pkg_name = names ! i, version = Some (versions ! i),
                 license = Some (licenses ! i), src_url = Some (src_urls ! i),
                 pkg_notices = []\<rparr>) idxs"
    if "length versions = length names" "length licenses = length names"
      "length src_urls = length names" for idxs
    using that by (simp add: base_package_aligned)
  show ?thesis
    unfolding add_base_packages_running [OF assms(1-6)] assms(7-10) register_base_packages_eq
    by (auto simp: Let_def add_image_notice_def aligned)
qed

theorem base_packages_registered_witness:
  "get_base_listing env0 (image_name img_wx) (image_tag img_wx) = Some ''base'' \<and>
   check_container env0 \<and>
   get_pkg_attr_list env0 (base_shell env0 ''base'') ''names'' [] = ([''a'', ''b''], []) \<and>
   get_pkg_attr_list env0 (base_shell env0 ''base'') ''src_urls'' [] = ([''u1'', ''u2''], []) \<and>
   get_pkg_attr_list env0 (base_shell env0 ''base'') ''one_url'' [] = ([''u1''], []) \<and>
   (\<exists>img' tr. add_base_packages env0 img_wx info0 = Inr (img', tr) \<and>
      layers img' = [layer_w\<lparr>packages := [Package ''curl'', pkg_a, pkg_b]\<rparr>,
                     layer_x\<lparr>packages := [pkg_a, pkg_b]\<rparr>]) \<and>
   (\<exists>img' tr. add_base_packages env0 img_wx info_one_url = Inr (img', tr) \<and>
      layers img' = [layer_w, layer_x])"
  using
    base_packages_registered [of env0 img_wx "''base''" info0 "''names''" "''versions''"
      "''licenses''" "''src_urls''" "[''a'', ''b'']" "[]" "[''1.0'', ''2.0'']" "[]"
      "[''MIT'', ''MIT'']" "[]" "[''u1'', ''u2'']" "[]"]
    base_packages_registered [of env0 img_wx "''base''" info_one_url "''names''" "''versions''"
      "''licenses''" "''one_url''" "[''a'', ''b'']" "[]" "[''1.0'', ''2.0'']" "[]"
      "[''MIT'', ''MIT'']" "[]" "[''u1'']" "[]"]
  by (simp add: example_defs base_example_defs upt_rec)

text \<open>
  Claim C8. Under the same conditions, when the invoked names list is empty or has one
  entry, the call constructs no \<^verbatim>\<open>Package\<close> object at all and leaves the layers as
  they were, whatever the versions, licenses and source URLs are.
\<close>

theorem single_name_constructs_nothing:
  assumes "get_base_listing env (image_name img) (image_tag img) = Some listing"
    and "check_container env"
    and "info ''names'' = Some nl" "info ''versions'' = Some vl"
    and "info ''licenses'' = Some ll" "info ''src_urls'' = Some ul"
    and "length (fst (get_pkg_attr_list env (base_shell env listing) nl [])) \<le> 1"
  shows "\<exists>img' tr. add_base_packages env img info = Inr (img', tr) \<and>
     constructed tr = [] \<and> layers img' = layers img"
proof -
  obtain names n_msg versions v_msg licenses l_msg src_urls u_msg where r:
    "get_pkg_attr_list env (base_shell env listing) nl [] = (names, n_msg)"
    "get_pkg_attr_list env (base_shell env listing) vl [] = (versions, v_msg)"
    "get_pkg_attr_list env (base_shell env listing) ll [] = (licenses, l_msg)"
    "get_pkg_attr_list env (base_shell env listing) ul [] = (src_urls, u_msg)"
    by (metis prod.exhaust)
  with assms(7) have "\<not> 1 < length names" by simp
  then show ?thesis
    unfolding add_base_packages_running [OF assms(1-6)] r register_base_packages_eq
    by (simp add: Let_def add_image_notice_def constructed_init [of "[]", simplified])
qed

theorem single_name_constructs_nothing_witness:
  "get_base_listing env0 (image_name img_wx) (image_tag img_wx) = Some ''base'' \<and>
   check_container env0 \<and>
   fst (get_pkg_attr_list env0 (base_shell env0 ''base'') ''one_name'' []) = [''onlyone''] \<and>
   (\<exists>img' tr. add_base_packages env0 img_wx info_one_name = Inr (img', tr) \<and>
      constructed tr = [] \<and> layers img' = [layer_w, layer_x])"
  using single_name_constructs_nothing [of env0 img_wx "''base''" info_one_name "''one_name''"
      "''versions''" "''licenses''" "''one_url''"]
  by (simp add: example_defs base_example_defs)

text \<open>
  Claim C9. When the base listing exists and the container check succeeds, a call (with
  the four keys in \<open>info\<close>) returns, and its writes to the cache are exactly the layers
  of the image as the call left them, one \<^verbatim>\<open>cache.add_layer\<close> per layer in the
  order of the layers. Nothing is assumed about the four invocations: the names may be
  empty or single, the source URLs misaligned, and every invocation may have reported an
  error.
\<close>

theorem cache_written_for_every_layer:
  assumes "get_base_listing env (image_name img) (image_tag img) = Some listing"
    and "check_container env"
    and "info ''names'' = Some nl" "info ''versions'' = Some vl"
    and "info ''licenses'' = Some ll" "info ''src_urls'' = Some ul"
  shows "\<exists>img' tr. add_base_packages env img info = Inr (img', tr) \<and>
     cache_writes tr = layers img' \<and>
     map layer_id (layers img') = map layer_id (layers img)"
proof -
  obtain names n_msg versions v_msg licenses l_msg src_urls u_msg where r:
    "get_pkg_attr_list env (base_shell env listing) nl [] = (names, n_msg)"
    "get_pkg_attr_list env (base_shell env listing) vl [] = (versions, v_msg)"
    "get_pkg_attr_list env (base_shell env listing) ll [] = (licenses, l_msg)"
    "get_pkg_attr_list env (base_shell env listing) ul [] = (src_urls, u_msg)"
    by (metis prod.exhaust)
  show ?thesis
    unfolding add_base_packages_running [OF assms(1-6)] r register_base_packages_eq
    by (simp add: Let_def add_image_notice_def cache_writes_init comp_def)
qed

theorem cache_written_for_every_layer_witness:
  "get_base_listing env0 (image_name img_wx) (image_tag img_wx) = Some ''base'' \<and>
   check_container env0 \<and>
   add_base_packages env0 img_wx info_one_name =
     Inr (img_wx, [Cache_add_layer layer_w, Cache_add_layer layer_x]) \<and>
   cache_writes [Cache_add_layer layer_w, Cache_add_layer layer_x] = layers img_wx"
  using cache_written_for_every_layer [of env0 img_wx "''base''" info_one_name "''one_name''"
      "''versions''" "''licenses''" "''one_url''"]
  by (simp add: example_defs base_example_defs add_base_packages_def)

text \<open>
  Claim C2, amended. When the base listing exists and the container check fails, the call
  returns, its only event is the line sent to the logger (so it constructs no package and
  writes nothing to the cache), and the layers of the image are untouched. The image's
  notices are its old notices followed by the two notices about a missing shell, which
  the function attaches before it checks the container; when the listing declares a
  shell, the image is left exactly as it was.
\<close>

theorem stopped_container_keeps_layers:
  assumes "get_base_listing env (image_name img) (image_tag img) = Some listing"
    and "\<not> check_container env"
  shows "\<exists>img'. add_base_packages env img info =
             Inr (img', [Logger_error (no_running_docker_container env)]) \<and>
     layers img' = layers img \<and>
     image_notices img' = image_notices img @ no_shell_notices env img listing \<and>
     (fst (get_image_shell env listing) \<noteq> [] \<longrightarrow> img' = img)"
  unfolding add_base_packages_stopped [OF assms]
  by (simp add: no_shell_notices_def)

theorem stopped_container_keeps_layers_witness:
  "get_base_listing env_stopped (image_name img_wx) (image_tag img_wx) = Some ''base'' \<and>
   \<not> check_container env_stopped \<and>
   fst (get_image_shell env_stopped ''base'') = ''/bin/bash'' \<and>
   add_base_packages env_stopped img_wx info0 = Inr (img_wx, [Logger_error ''no container''])"
  using stopped_container_keeps_layers [of env_stopped img_wx "''base''" info0]
  by (simp add: example_defs base_example_defs)

text \<open>
  Claim C2 as stated fails for a listing without a shell: the container check fails, and
  the image that had no notice comes back with the warning and the hint.
\<close>

theorem stopped_container_attaches_notices:
  "get_base_listing env_stopped (image_name img_alpine) (image_tag img_alpine) = Some ''bare'' \<and>
   \<not> check_container env_stopped \<and>
   image_notices img_alpine = [] \<and>
   add_base_packages env_stopped img_alpine info0 =
     Inr (img_alpine\<lparr>image_notices :=
            [\<lparr>origin = ''command_lib/base.yml'', message = ''no shell for alpine'', level = ''warning''\<rparr>,
             \<lparr>origin = ''command_lib/base.yml'', message = ''add shell'', level = ''hint''\<rparr>]\<rparr>,
          [Logger_error ''no container''])"
  by (simp add: example_defs base_example_defs add_base_packages_def)

section \<open>Properties of the package metadata\<close>

lemma fill_version_name [simp]: "pkg_name (fill_version env l sh p) = pkg_name p"
  by (simp add: fill_version_def add_pkg_notice_def split: prod.splits option.splits list.splits)

lemma fill_license_name [simp]: "pkg_name (fill_license env l sh p) = pkg_name p"
  by (simp add: fill_license_def add_pkg_notice_def split: prod.splits option.splits list.splits)

lemma fill_version_src_url [simp]: "src_url (fill_version env l sh p) = src_url p"
  by (simp add: fill_version_def add_pkg_notice_def split: prod.splits option.splits list.splits)

lemma fill_license_src_url [simp]: "src_url (fill_license env l sh p) = src_url p"
  by (simp add: fill_license_def add_pkg_notice_def split: prod.splits option.splits list.splits)

lemma fill_src_url_eq:
  "src_url (fill_src_url env l sh p) =
     (case check_library_key env l ''license'' of
        (None, listing_msg) \<Rightarrow> src_url p
      | (Some url_listing, listing_msg) \<Rightarrow>
          (case get_pkg_attr_list env sh url_listing (pkg_name p) of
             ([], invoke_msg) \<Rightarrow> src_url p
           | (u # us, invoke_msg) \<Rightarrow> Some u))"
  by (simp add: fill_src_url_def add_pkg_notice_def split: prod.splits option.splits list.splits)

lemma fill_src_url_notices:
  "pkg_notices (fill_src_url env l sh p) =
     pkg_notices p @
     (case check_library_key env l ''license'' of
        (None, listing_msg) \<Rightarrow> [Notice ''command_lib/snippets.yml'' listing_msg ''warning'']
      | (Some url_listing, listing_msg) \<Rightarrow>
          (case get_pkg_attr_list env sh url_listing (pkg_name p) of
             ([], invoke_msg) \<Rightarrow> [Notice ''command_lib/snippets.yml'' invoke_msg ''error'']
           | (u # us, invoke_msg) \<Rightarrow> []))"
  by (simp add: fill_src_url_def add_pkg_notice_def split: prod.splits option.splits list.splits)

text \<open>
  Claim C4. The source URL that \<^verbatim>\<open>fill_package_metadata\<close> leaves in the package
  is decided by the key \<^verbatim>\<open>license\<close>: when \<^verbatim>\<open>check_library_key\<close> finds
  no listing under it, the source URL stays what it was and a warning notice with the
  lookup's message is attached; when it finds one, that listing is invoked with the
  package's name, and the source URL is the first value returned, or stays what it was
  (with an error notice) when nothing is returned. What the command library answers for
  any key other than \<^verbatim>\<open>version\<close> and \<^verbatim>\<open>license\<close>, a source URL key
  among them, does not change the result.
\<close>

theorem src_url_resolved_under_license_key:
  "src_url (fill_package_metadata env pkg_obj pkg_listing shell) =
     (case check_library_key env pkg_listing ''license'' of
        (None, listing_msg) \<Rightarrow> src_url pkg_obj
      | (Some url_listing, listing_msg) \<Rightarrow>
          (case get_pkg_attr_list env shell url_listing (pkg_name pkg_obj) of
             ([], invoke_msg) \<Rightarrow> src_url pkg_obj
           | (u # us, invoke_msg) \<Rightarrow> Some u)) \<and>
   pkg_notices (fill_package_metadata env pkg_obj pkg_listing shell) =
     pkg_notices (fill_license env pkg_listing shell (fill_version env pkg_listing shell pkg_obj)) @
     (case check_library_key env pkg_listing ''license'' of
        (None, listing_msg) \<Rightarrow> [Notice ''command_lib/snippets.yml'' listing_msg ''warning'']
      | (Some url_listing, listing_msg) \<Rightarrow>
          (case get_pkg_attr_list env shell url_listing (pkg_name pkg_obj) of
             ([], invoke_msg) \<Rightarrow> [Notice ''command_lib/snippets.yml'' invoke_msg ''error'']
           | (u # us, invoke_msg) \<Rightarrow> [])) \<and>
   fill_package_metadata
     (env\<lparr>check_library_key :=
        (\<lambda>l key. if key = ''version'' \<or> key = ''license'' then check_library_key env l key
                  else other l key)\<rparr>)
     pkg_obj pkg_listing shell
   = fill_package_metadata env pkg_obj pkg_listing shell"
proof (intro conjI)
  show "src_url (fill_package_metadata env pkg_obj pkg_listing shell) =
     (case check_library_key env pkg_listing ''license'' of
        (None, listing_msg) \<Rightarrow> src_url pkg_obj
      | (Some url_listing, listing_msg) \<Rightarrow>
          (case get_pkg_attr_list env shell url_listing (pkg_name pkg_obj) of
             ([], invoke_msg) \<Rightarrow> src_url pkg_obj
           | (u # us, invoke_msg) \<Rightarrow> Some u))"
    unfolding fill_package_metadata_def fill_src_url_eq
    by (simp split: prod.splits option.splits list.splits)
  show "pkg_notices (fill_package_metadata env pkg_obj pkg_listing shell) =
     pkg_notices (fill_license env pkg_listing shell (fill_version env pkg_listing shell pkg_obj)) @
     (case check_library_key env pkg_listing ''license'' of
        (None, listing_msg) \<Rightarrow> [Notice ''command_lib/snippets.yml'' listing_msg ''warning'']
      | (Some url_listing, listing_msg) \<Rightarrow>
          (case get_pkg_attr_list env shell url_listing (pkg_name pkg_obj) of
             ([], invoke_msg) \<Rightarrow> [Notice ''command_lib/snippets.yml'' invoke_msg ''error'']
           | (u # us, invoke_msg) \<Rightarrow> []))"
    unfolding fill_package_metadata_def fill_src_url_notices
    by (simp split: prod.splits option.splits list.splits)
  show "fill_package_metadata
     (env\<lparr>check_library_key :=
        (\<lambda>l key. if key = ''version'' \<or> key = ''license'' then check_library_key env l key
                  else other l key)\<rparr>)
     pkg_obj pkg_listing shell
   = fill_package_metadata env pkg_obj pkg_listing shell"
    by (simp add: fill_package_metadata_def fill_src_url_def fill_license_def fill_version_def
        cong: prod.case_cong option.case_cong list.case_cong)
qed

theorem src_url_resolved_under_license_key_witness:
  "check_library_key env0 ''snippet'' ''license'' = (Some ''licenses'', []) \<and>
   check_library_key env0 ''snippet'' ''src_url'' = (None, ''no key'') \<and>
   get_pkg_attr_list env0 ''/bin/bash'' ''licenses'' ''curl'' = ([''MIT'', ''MIT''], []) \<and>
   src_url (fill_package_metadata env0 (Package ''curl'') ''snippet'' ''/bin/bash'') = Some ''MIT''"
  using src_url_resolved_under_license_key [of env0 "Package ''curl''" "''snippet''" "''/bin/bash''"]
  by (simp add: env0_def Package_def)

section \<open>Properties of the package dependencies\<close>

lemma list_of_set_remdups: "list_of_set xs (remdups xs)"
  by (simp add: list_of_set_def)

lemma list_of_set_length: "list_of_set xs ys \<Longrightarrow> length ys = card (set xs)"
  by (metis distinct_card list_of_set_def)

text \<open>
  Claim C6. \<^verbatim>\<open>get_package_dependencies\<close> always returns a pair, and the sequence
  of every pair it can return has no duplicates. When the \<^verbatim>\<open>deps\<close> listing
  exists, the sequence holds exactly the values that the invoker returned, and its length
  is the number of distinct values among them; when it does not exist, the sequence is
  empty and the message is the lookup's.
\<close>

theorem dependencies_without_duplicates:
  "(\<exists>result. get_package_dependencies env package_listing package_name shell result) \<and>
   (\<forall>deps msg. get_package_dependencies env package_listing package_name shell (deps, msg) \<longrightarrow>
      distinct deps \<and>
      (case check_library_key env package_listing ''deps'' of
         (None, deps_msg) \<Rightarrow> deps = [] \<and> msg = deps_msg
       | (Some deps_listing, deps_msg) \<Rightarrow>
           set deps = set (fst (get_pkg_attr_list env shell deps_listing package_name)) \<and>
           length deps = card (set (fst (get_pkg_attr_list env shell deps_listing package_name)))))"
proof (rule conjI)
  show "\<exists>result. get_package_dependencies env package_listing package_name shell result"
  proof (cases "check_library_key env package_listing ''deps''")
    case (Pair lo deps_msg)
    show ?thesis
    proof (cases lo)
      case None
      with Pair show ?thesis by (simp add: get_package_dependencies_def)
    next
      case (Some deps_listing)
      show ?thesis
      proof (cases "get_pkg_attr_list env shell deps_listing package_name")
        case (Pair deps_list invoke_msg)
        show ?thesis
        proof (cases deps_list)
          case Nil
          with Pair Some \<open>check_library_key env package_listing ''deps'' = (lo, deps_msg)\<close>
          show ?thesis by (simp add: get_package_dependencies_def)
        next
          case (Cons d ds)
          have "get_package_dependencies env package_listing package_name shell (remdups (d # ds), [])"
            using Cons Pair Some \<open>check_library_key env package_listing ''deps'' = (lo, deps_msg)\<close>
              list_of_set_remdups [of "d # ds"]
            by (simp add: get_package_dependencies_def)
          then show ?thesis by blast
        qed
      qed
    qed
  qed
next
  show "\<forall>deps msg. get_package_dependencies env package_listing package_name shell (deps, msg) \<longrightarrow>
      distinct deps \<and>
      (case check_library_key env package_listing ''deps'' of
         (None, deps_msg) \<Rightarrow> deps = [] \<and> msg = deps_msg
       | (Some deps_listing, deps_msg) \<Rightarrow>
           set deps = set (fst (get_pkg_attr_list env shell deps_listing package_name)) \<and>
           length deps = card (set (fst (get_pkg_attr_list env shell deps_listing package_name))))"
  proof (intro allI impI)
  fix deps msg
  assume r: "get_package_dependencies env package_listing package_name shell (deps, msg)"
  obtain lo deps_msg where ck: "check_library_key env package_listing ''deps'' = (lo, deps_msg)"
    by (cases "check_library_key env package_listing ''deps''")
  show "distinct deps \<and>
      (case check_library_key env package_listing ''deps'' of
         (None, deps_msg) \<Rightarrow> deps = [] \<and> msg = deps_msg
       | (Some deps_listing, deps_msg) \<Rightarrow>
           set deps = set (fst (get_pkg_attr_list env shell deps_listing package_name)) \<and>
           length deps = card (set (fst (get_pkg_attr_list env shell deps_listing package_name))))"
  proof (cases lo)
    case None
    with r ck have "deps = []" "msg = deps_msg"
      by (simp_all add: get_package_dependencies_def)
    with None ck show ?thesis by simp
  next
    case (Some deps_listing)
    obtain deps_list invoke_msg where
      inv: "get_pkg_attr_list env shell deps_listing package_name = (deps_list, invoke_msg)"
      by (cases "get_pkg_attr_list env shell deps_listing package_name")
    show ?thesis
    proof (cases deps_list)
      case Nil
      with r ck Some inv have "deps = []"
        by (simp add: get_package_dependencies_def)
      with Nil ck Some inv show ?thesis by simp
    next
      case (Cons d ds)
      with r ck Some inv have los: "list_of_set deps_list deps"
        by (simp add: get_package_dependencies_def)
      then have "distinct deps" "set deps = set deps_list"
        by (simp_all add: list_of_set_def)
      moreover have "length deps = card (set deps_list)"
        using los by (rule list_of_set_length)
      ultimately show ?thesis using ck Some inv by simp
    qed
  qed
qed
qed

lemma deps_example_invoke: "get_pkg_attr_list env0 ''/bin/bash'' ''deps'' ''curl'' = ([''x'', ''y'', ''x''], [])"
  by (simp add: env0_def)

lemma deps_example_key: "check_library_key env0 ''snippet'' ''deps'' = (Some ''deps'', [])"
  by (simp add: env0_def)

lemma deps_example_result: "get_package_dependencies env0 ''snippet'' ''curl'' ''/bin/bash'' ([''y'', ''x''], [])"
  by (simp add: get_package_dependencies_def deps_example_key deps_example_invoke list_of_set_def) auto


lemma deps_example_not_result: "\<not> get_package_dependencies env0 ''snippet'' ''curl'' ''/bin/bash'' ([''x'', ''y'', ''x''], [])"
  by (simp add: get_package_dependencies_def deps_example_key deps_example_invoke list_of_set_def)

theorem dependencies_without_duplicates_witness:
  "get_pkg_attr_list env0 ''/bin/bash'' ''deps'' ''curl'' = ([''x'', ''y'', ''x''], []) \<and>
   get_package_dependencies env0 ''snippet'' ''curl'' ''/bin/bash'' ([''y'', ''x''], []) \<and>
   \<not> get_package_dependencies env0 ''snippet'' ''curl'' ''/bin/bash'' ([''x'', ''y'', ''x''], []) \<and>
   distinct [''y'', ''x''] \<and>
   length [''y'', ''x''] = card (set [''x'', ''y'', ''x''])"
proof -
  have r: "distinct [''y'', ''x''] \<and>
      set [''y'', ''x''] = set [''x'', ''y'', ''x''] \<and>
      length [''y'', ''x''] = card (set [''x'', ''y'', ''x''])"
    using dependencies_without_duplicates [of env0 "''snippet''" "''curl''" "''/bin/bash''",
      THEN conjunct2, THEN spec, THEN spec, THEN mp, OF deps_example_result]
    unfolding deps_example_key prod.case option.case deps_example_invoke fst_conv .
  show ?thesis
    by (intro conjI deps_example_invoke deps_example_result deps_example_not_result
        r [THEN conjunct1] r [THEN conjunct2, THEN conjunct2])
qed

end
